theory Spec2Isabelle
  imports Main "HOL-Library.Word"
begin

text \<open>
  RPiPlay's \<open>airplay_server.cpp\<close>: the command line, the hardware address, the start
  and the stop of the AirPlay session, and the signal-driven run loop of \<open>main\<close>.
  Line numbers are those of the source file.
\<close>

section \<open>Command-line options (\<open>main\<close>, lines 104--133)\<close>

datatype audio_device_t = AUDIO_DEVICE_HDMI | AUDIO_DEVICE_ANALOG | AUDIO_DEVICE_NONE

text \<open>The five locals of \<open>main\<close> that the argument loop may assign; the hardware
  address is set after the loop and is kept apart.\<close>

record options =
  show_background :: bool
  server_name :: string
  audio_device :: audio_device_t
  low_latency :: bool

definition DEFAULT_NAME :: string where
  "DEFAULT_NAME = ''RPiPlay''"

definition DEFAULT_SHOW_BACKGROUND :: bool where
  "DEFAULT_SHOW_BACKGROUND = True"

definition DEFAULT_AUDIO_DEVICE :: audio_device_t where
  "DEFAULT_AUDIO_DEVICE = AUDIO_DEVICE_HDMI"

definition DEFAULT_LOW_LATENCY :: bool where
  "DEFAULT_LOW_LATENCY = False"

definition default_options :: options where
  "default_options =
     \<lparr>show_background = DEFAULT_SHOW_BACKGROUND, server_name = DEFAULT_NAME,
      audio_device = DEFAULT_AUDIO_DEVICE, low_latency = DEFAULT_LOW_LATENCY\<rparr>"

text \<open>The conditional expression of lines 124--126.\<close>

definition audio_device_of_name :: "string \<Rightarrow> audio_device_t" where
  "audio_device_of_name audio_device_name =
     (if audio_device_name = ''hdmi'' then AUDIO_DEVICE_HDMI
      else if audio_device_name = ''analog'' then AUDIO_DEVICE_ANALOG
      else AUDIO_DEVICE_NONE)"

text \<open>
  The loop \<open>for (int i = 1; i < argc; i++)\<close>. \<open>argv\<close> is the whole vector
  (\<open>argv ! 0\<close> is the program name) and \<open>argc\<close> its length; \<open>parse_args argv i opts\<close>
  is the run of the loop from the loop head with counter \<open>i\<close> and locals \<open>opts\<close>.
  \<open>continue\<close> and the end of the body go to \<open>i + 1\<close>; \<open>argv[++i]\<close> reads
  \<open>argv ! (i + 1)\<close> and the body then ends at \<open>i + 2\<close>. \<open>-h\<close> and \<open>-v\<close> print the
  usage and call \<open>exit(0)\<close>: the result \<open>Inl 0\<close> is the exit status; \<open>Inr opts\<close> are
  the locals when the loop is left.
\<close>

function parse_args :: "string list \<Rightarrow> nat \<Rightarrow> options \<Rightarrow> int + options" where
  "parse_args argv i opts =
     (if i < length argv then
        (if argv ! i = ''-n'' then
           (if i = length argv - 1 then parse_args argv (i + 1) opts
            else parse_args argv (i + 2) (opts\<lparr>server_name := argv ! (i + 1)\<rparr>))
         else if argv ! i = ''-b'' then
           parse_args argv (i + 1) (opts\<lparr>show_background := \<not> show_background opts\<rparr>)
         else if argv ! i = ''-a'' then
           (if i = length argv - 1 then parse_args argv (i + 1) opts
            else parse_args argv (i + 2)
                   (opts\<lparr>audio_device := audio_device_of_name (argv ! (i + 1))\<rparr>))
         else if argv ! i = ''-l'' then
           parse_args argv (i + 1) (opts\<lparr>low_latency := \<not> low_latency opts\<rparr>)
         else if argv ! i = ''-h'' \<or> argv ! i = ''-v'' then Inl 0
         else parse_args argv (i + 1) opts)
      else Inr opts)"
  by pat_completeness auto
termination
  by (relation "measure (\<lambda>(argv, i, opts). length argv - i)") auto

declare parse_args.simps [simp del]

text \<open>Line 114 starts the loop at \<open>i = 1\<close> with the defaults of lines 107--111.\<close>

definition main_parse_args :: "string list \<Rightarrow> int + options" where
  "main_parse_args argv = parse_args argv 1 default_options"

section \<open>Hardware address (\<open>parse_hw_addr\<close>, \<open>find_mac\<close>, lines 73--91 and 135--139)\<close>

type_synonym byte = "8 word"

definition DEFAULT_HW_ADDRESS :: "byte list" where
  "DEFAULT_HW_ADDRESS = [0x48, 0x5d, 0x60, 0x7c, 0xee, 0x22]"

subsection \<open>\<open>std::stol(str, NULL, 16)\<close>\<close>

text \<open>
  \<open>std::stol\<close> belongs to the C++ standard library, not to the program; it is modelled
  after the standard's description of \<open>strtol\<close> in the "C" locale, which it calls:
  white space is skipped, then an optional sign, then an optional \<open>0x\<close> or \<open>0X\<close>
  (part of the number only when a hexadecimal digit follows it), then the longest run of
  hexadecimal digits. No digit at all makes \<open>std::stol\<close> throw
  \<open>std::invalid_argument\<close>; a value that does not fit \<open>long\<close> makes it throw
  \<open>std::out_of_range\<close>. The width of \<open>long\<close> depends on the platform and is the
  parameter \<open>LONG_BIT\<close> (32 on a 32-bit Raspberry Pi OS, 64 on a 64-bit one).
  The third exception is not thrown by anything: it stands for the undefined behaviour of
  a signed overflow of the loop counter of \<open>parse_hw_addr\<close>.
\<close>

datatype exception = invalid_argument | out_of_range | signed_overflow

definition isspace :: "char \<Rightarrow> bool" where
  "isspace c = (c = CHR 0x20 \<or> c = CHR 0x09 \<or> c = CHR 0x0A \<or> c = CHR 0x0B
                \<or> c = CHR 0x0C \<or> c = CHR 0x0D)"

text \<open>The value of a digit in base 16; 16 for a character that is no such digit.\<close>

definition digit_value :: "char \<Rightarrow> nat" where
  "digit_value c =
     (let n = (of_char c :: nat) in
      if 48 \<le> n \<and> n \<le> 57 then n - 48
      else if 97 \<le> n \<and> n \<le> 102 then n - 87
      else if 65 \<le> n \<and> n \<le> 70 then n - 55
      else 16)"

definition isxdigit :: "char \<Rightarrow> bool" where
  "isxdigit c = (digit_value c < 16)"

fun has_hex_prefix :: "string \<Rightarrow> bool" where
  "has_hex_prefix (z # x # h # rest) =
     (z = CHR ''0'' \<and> (x = CHR ''x'' \<or> x = CHR ''X'') \<and> isxdigit h)"
| "has_hex_prefix other = False"

definition stol :: "nat \<Rightarrow> string \<Rightarrow> exception + int" where
  "stol LONG_BIT str =
     (let s1 = dropWhile isspace str;
          negative = (s1 \<noteq> [] \<and> hd s1 = CHR ''-'');
          s2 = (if s1 \<noteq> [] \<and> (hd s1 = CHR ''-'' \<or> hd s1 = CHR ''+'') then tl s1 else s1);
          s3 = (if has_hex_prefix s2 then drop 2 s2 else s2);
          digits = takeWhile isxdigit s3
      in if digits = [] then Inl invalid_argument
         else
           let magnitude = foldl (\<lambda>acc c. 16 * acc + int (digit_value c)) 0 digits;
               v = (if negative then - magnitude else magnitude)
           in if v < - (2 ^ (LONG_BIT - 1)) \<or> 2 ^ (LONG_BIT - 1) - 1 < v
              then Inl out_of_range
              else Inr v)"

subsection \<open>\<open>parse_hw_addr\<close>\<close>

definition INT_MAX :: nat where
  "INT_MAX = 2147483647"

text \<open>
  The loop \<open>for (int i = 0; i < str.length(); i+=3)\<close>: \<open>str.substr(i)\<close> is
  \<open>drop i str\<close>, the cast \<open>(char)\<close> keeps the low 8 bits of the \<open>long\<close>, and
  \<open>push_back\<close> appends. An exception of \<open>std::stol\<close> is caught nowhere in the program
  and leaves the function (and the process) at once.
\<close>

function parse_hw_addr_loop :: "nat \<Rightarrow> string \<Rightarrow> nat \<Rightarrow> byte list \<Rightarrow> exception + byte list" where
  "parse_hw_addr_loop LONG_BIT str i hw_addr =
     (if i < length str then
        (case stol LONG_BIT (drop i str) of
           Inl ex \<Rightarrow> Inl ex
         | Inr v \<Rightarrow>
             if INT_MAX < i + 3 then Inl signed_overflow
             else parse_hw_addr_loop LONG_BIT str (i + 3) (hw_addr @ [word_of_int v]))
      else Inr hw_addr)"
  by pat_completeness auto
termination
  by (relation "measure (\<lambda>(LONG_BIT, str, i, hw_addr). length str - i)") auto

declare parse_hw_addr_loop.simps [simp del]

text \<open>The function returns 0 and leaves its result in the vector passed by reference.\<close>

definition parse_hw_addr :: "nat \<Rightarrow> string \<Rightarrow> byte list \<Rightarrow> exception + (int \<times> byte list)" where
  "parse_hw_addr LONG_BIT str hw_addr =
     (case parse_hw_addr_loop LONG_BIT str 0 hw_addr of
        Inl ex \<Rightarrow> Inl ex
      | Inr hw_addr' \<Rightarrow> Inr (0, hw_addr'))"

text \<open>
  \<open>find_mac\<close> reads the file system; what the two files hold is a parameter: \<open>None\<close>
  for a file that cannot be opened, else its content. \<open>iface_stream >> mac_address\<close>
  skips white space and reads up to the next white space.
\<close>

definition read_word :: "string \<Rightarrow> string" where
  "read_word content = takeWhile (\<lambda>c. \<not> isspace c) (dropWhile isspace content)"

definition find_mac :: "string option \<Rightarrow> string option \<Rightarrow> string" where
  "find_mac eth0 wlan0 =
     (case eth0 of
        Some content \<Rightarrow> read_word content
      | None \<Rightarrow> (case wlan0 of Some content \<Rightarrow> read_word content | None \<Rightarrow> []))"

text \<open>Lines 135--139: the address handed to \<open>start_server\<close>.\<close>

definition resolve_hw_addr :: "nat \<Rightarrow> string \<Rightarrow> exception + byte list" where
  "resolve_hw_addr LONG_BIT mac_address =
     (if mac_address \<noteq> [] then
        (case parse_hw_addr LONG_BIT mac_address [] of
           Inl ex \<Rightarrow> Inl ex
         | Inr (r, server_hw_addr) \<Rightarrow> Inr server_hw_addr)
      else Inr DEFAULT_HW_ADDRESS)"

subsection \<open>The delimited textual form\<close>

text \<open>
  Not code of the program but the shape of its input: the text of a hardware address is
  a list of pairs of characters joined by a separator (a colon as the kernel writes it,
  or a hyphen), as in \<open>48:5d:60:7c:ee:22\<close>; \<open>pair_byte\<close> is the byte that a pair of
  hexadecimal digits denotes.
\<close>

fun delimited_text :: "char \<Rightarrow> (char \<times> char) list \<Rightarrow> string" where
  "delimited_text sep [] = []"
| "delimited_text sep [(a, b)] = [a, b]"
| "delimited_text sep ((a, b) # p # ps) = a # b # sep # delimited_text sep (p # ps)"

definition pair_byte :: "char \<times> char \<Rightarrow> byte" where
  "pair_byte p = word_of_int (16 * int (digit_value (fst p)) + int (digit_value (snd p)))"

section \<open>Process-wide state and the libraries (lines 48--52)\<close>

text \<open>
  A pointer to an object of one of the libraries is \<open>Some h\<close>, the null pointer is
  \<open>None\<close>. The libraries (\<open>lib/raop.h\<close>, \<open>lib/dnssd.h\<close>, \<open>lib/logger.h\<close>, the
  renderers) are called, not defined, by this file: what their functions return is the
  parameter \<open>library\<close> of \<open>start_server\<close>, and every call the program makes is
  appended, with its arguments, to the history \<open>calls\<close> kept beside the five static
  variables. The callbacks passed to the libraries are left out of the arguments.
\<close>

type_synonym handle = nat

datatype level = LOGE | LOGW | LOGI | LOGD

datatype lib_level = LOGGER_DEBUG | LOGGER_INFO | RAOP_LOG_DEBUG

datatype call =
    call_LOG level string
  | call_raop_init nat
  | call_raop_set_log_callback "handle option"
  | call_raop_set_log_level "handle option" lib_level
  | call_logger_init
  | call_logger_set_callback "handle option"
  | call_logger_set_level "handle option" lib_level
  | call_logger_log "handle option" lib_level string
  | call_video_renderer_init "handle option" bool bool
  | call_audio_renderer_init "handle option" "handle option" audio_device_t bool
  | call_video_renderer_start "handle option"
  | call_audio_renderer_start "handle option"
  | call_raop_start "handle option"
  | call_raop_set_port "handle option" "16 word"
  | call_raop_get_port "handle option"
  | call_dnssd_init string nat "byte list" nat
  | call_raop_set_dnssd "handle option" "handle option"
  | call_dnssd_register_raop "handle option" int
  | call_dnssd_register_airplay "handle option" int
  | call_raop_destroy "handle option"
  | call_dnssd_unregister_raop "handle option"
  | call_dnssd_unregister_airplay "handle option"
  | call_audio_renderer_destroy "handle option"
  | call_video_renderer_destroy "handle option"
  | call_sleep nat

record globals =
  running :: bool
  dnssd :: "handle option"
  raop :: "handle option"
  video_renderer :: "handle option"
  audio_renderer :: "handle option"
  calls :: "call list"

text \<open>The static initialisers of lines 48--52; nothing has been called yet.\<close>

definition initial_globals :: globals where
  "initial_globals =
     \<lparr>running = False, dnssd = None, raop = None, video_renderer = None,
      audio_renderer = None, calls = []\<rparr>"

record library =
  raop_init_result :: "handle option"
  logger_init_result :: "handle option"
  video_renderer_init_result :: "handle option"
  audio_renderer_init_result :: "handle option"
  raop_start_port :: "16 word"
  dnssd_init_result :: "handle option"
  dnssd_init_error :: int

definition do_call :: "call \<Rightarrow> globals \<Rightarrow> globals" where
  "do_call c s = s\<lparr>calls := calls s @ [c]\<rparr>"

text \<open>\<open>strlen(name.c_str())\<close> counts up to the first zero character.\<close>

definition c_str :: "string \<Rightarrow> string" where
  "c_str name = takeWhile (\<lambda>c. c \<noteq> CHR 0x00) name"

section \<open>\<open>start_server\<close> (lines 195--252)\<close>

text \<open>
  The body, statement by statement; the result is the returned \<open>int\<close> with the state
  left behind. \<open>port\<close> is an \<open>unsigned short\<close>, set by \<open>raop_start\<close> through the
  pointer; in \<open>port + 1\<close> it is promoted to \<open>int\<close>, so the argument expression of
  \<open>dnssd_register_airplay\<close> has the value \<open>uint port + 1\<close>. \<open>if (error)\<close> tests the
  \<open>int\<close> that \<open>dnssd_init\<close> wrote against zero. Three parameters carry a prime,
  their plain names being the fields of \<open>options\<close>.
\<close>

definition start_server ::
  "library \<Rightarrow> byte list \<Rightarrow> string \<Rightarrow> bool \<Rightarrow> audio_device_t \<Rightarrow> bool \<Rightarrow> globals
     \<Rightarrow> int \<times> globals" where
  "start_server lib hw_addr name show_background' audio_device' low_latency' s0 =
     (let s1 = (do_call (call_raop_init 10) s0)\<lparr>raop := raop_init_result lib\<rparr> in
      if raop s1 = None then (- 1, do_call (call_LOG LOGE ''raop = NULL'') s1)
      else
        let s2 = do_call (call_LOG LOGD ''raop init success'') s1;
            s3 = do_call (call_raop_set_log_callback (raop s2)) s2;
            s4 = do_call (call_raop_set_log_level (raop s3) RAOP_LOG_DEBUG) s3;
            render_logger = logger_init_result lib;
            s5 = do_call call_logger_init s4;
            s6 = do_call (call_logger_set_callback render_logger) s5;
            s7 = do_call (call_logger_set_level render_logger LOGGER_DEBUG) s6;
            s8 = (if low_latency'
                  then do_call (call_logger_log render_logger LOGGER_INFO
                                  ''Using low-latency mode'') s7
                  else s7);
            s9 = (do_call (call_video_renderer_init render_logger show_background'
                             low_latency') s8)
                   \<lparr>video_renderer := video_renderer_init_result lib\<rparr>
        in
        if video_renderer s9 = None
        then (- 1, do_call (call_LOG LOGE ''Could not init video renderer'') s9)
        else
          let s10 = (if audio_device' = AUDIO_DEVICE_NONE
                     then do_call (call_LOG LOGI ''Audio disabled'') s9
                     else (do_call (call_audio_renderer_init render_logger
                                      (video_renderer s9) audio_device' low_latency') s9)
                            \<lparr>audio_renderer := audio_renderer_init_result lib\<rparr>)
          in
          if audio_device' \<noteq> AUDIO_DEVICE_NONE \<and> audio_renderer s10 = None
          then (- 1, do_call (call_LOG LOGE ''Could not init audio renderer'') s10)
          else
            let s11 = (if video_renderer s10 \<noteq> None
                       then do_call (call_video_renderer_start (video_renderer s10)) s10
                       else s10);
                s12 = (if audio_renderer s11 \<noteq> None
                       then do_call (call_audio_renderer_start (audio_renderer s11)) s11
                       else s11);
                s13 = do_call (call_raop_start (raop s12)) s12;
                port = raop_start_port lib;
                s14 = do_call (call_raop_set_port (raop s13) port) s13;
                s15 = do_call (call_raop_get_port (raop s14)) s14;
                s16 = do_call (call_LOG LOGD ''raop port = % d'') s15;
                s17 = (do_call (call_dnssd_init (c_str name) (length (c_str name))
                                  hw_addr (length hw_addr)) s16)
                        \<lparr>dnssd := dnssd_init_result lib\<rparr>
            in
            if dnssd_init_error lib \<noteq> 0
            then (- 2, do_call (call_LOG LOGE ''Could not initialize dnssd library!'') s17)
            else
              let s18 = do_call (call_raop_set_dnssd (raop s17) (dnssd s17)) s17;
                  s19 = do_call (call_dnssd_register_raop (dnssd s18) (uint port)) s18;
                  s20 = do_call (call_dnssd_register_airplay (dnssd s19) (uint port + 1)) s19
              in (0, s20))"

section \<open>\<open>stop_server\<close> (lines 254--262)\<close>

definition stop_server :: "globals \<Rightarrow> int \<times> globals" where
  "stop_server s0 =
     (let s1 = do_call (call_raop_destroy (raop s0)) s0;
          s2 = do_call (call_dnssd_unregister_raop (dnssd s1)) s1;
          s3 = do_call (call_dnssd_unregister_airplay (dnssd s2)) s2;
          s4 = do_call (call_audio_renderer_destroy (audio_renderer s3)) s3;
          s5 = do_call (call_video_renderer_destroy (video_renderer s4)) s4
      in (0, s5))"

text \<open>The calls that take a subsystem down or withdraw a service.\<close>

fun is_teardown :: "call \<Rightarrow> bool" where
  "is_teardown (call_raop_destroy h) = True"
| "is_teardown (call_dnssd_unregister_raop h) = True"
| "is_teardown (call_dnssd_unregister_airplay h) = True"
| "is_teardown (call_audio_renderer_destroy h) = True"
| "is_teardown (call_video_renderer_destroy h) = True"
| "is_teardown other = False"

section \<open>Signals and the run loop (lines 54--71 and 141--152)\<close>

text \<open>The numbers of the two signals on Linux.\<close>

definition SIGINT :: int where
  "SIGINT = 2"

definition SIGTERM :: int where
  "SIGTERM = 15"

definition signal_handler :: "int \<Rightarrow> globals \<Rightarrow> globals" where
  "signal_handler sig s =
     (if sig = SIGINT \<or> sig = SIGTERM then s\<lparr>running := False\<rparr> else s)"

text \<open>
  Where the main thread stands once \<open>start_server\<close> has returned 0: before the
  assignment of line 145, at the head of the loop of line 146, or past
  \<open>stop_server\<close> with the exit status of the process. \<open>Default_action sig\<close> stands
  for a process that has received a signal for which \<open>init_signals\<close> installs no
  handler: the system's default action for that signal takes over (for most signals it
  ends the process), and the program is not followed any further.
\<close>

datatype pc = At_set_running | At_loop_head | Returned int | Default_action int

text \<open>
  One step of the main thread. At the loop head it reads \<open>running\<close>: when set it
  sleeps and comes back to the head, when clear it logs, calls \<open>stop_server\<close> and
  leaves \<open>main\<close> (status 0).
\<close>

fun main_step :: "pc \<times> globals \<Rightarrow> pc \<times> globals" where
  "main_step (At_set_running, s) = (At_loop_head, s\<lparr>running := True\<rparr>)"
| "main_step (At_loop_head, s) =
     (if running s then (At_loop_head, do_call (call_sleep 1) s)
      else (Returned 0, snd (stop_server (do_call (call_LOG LOGI ''Stopping...'') s))))"
| "main_step (Returned status, s) = (Returned status, s)"
| "main_step (Default_action sig, s) = (Default_action sig, s)"

text \<open>
  \<open>init_signals\<close> (lines 63--71, called at line 105) installs the handler for
  \<open>SIGINT\<close> and \<open>SIGTERM\<close> and for no other signal. A delivery of one of the two
  runs the handler between two steps of the main thread and leaves the main thread
  where it was; any other signal takes its default action. Nothing happens to a process
  that has returned or has been handed to a default action.
\<close>

datatype event = Main_step | Signal int

fun step :: "event \<Rightarrow> pc \<times> globals \<Rightarrow> pc \<times> globals" where
  "step e (Returned status, s) = (Returned status, s)"
| "step e (Default_action k, s) = (Default_action k, s)"
| "step Main_step (p, s) = main_step (p, s)"
| "step (Signal sig) (p, s) =
     (if sig = SIGINT \<or> sig = SIGTERM then (p, signal_handler sig s)
      else (Default_action sig, s))"

fun exec :: "event list \<Rightarrow> pc \<times> globals \<Rightarrow> pc \<times> globals" where
  "exec [] st = st"
| "exec (e # es) st = exec es (step e st)"

section \<open>\<open>main\<close> up to the run loop (lines 104--145)\<close>

datatype main_outcome =
    Exit int
  | Uncaught exception
  | Running "pc \<times> globals"

definition main :: "nat \<Rightarrow> library \<Rightarrow> string option \<Rightarrow> string option \<Rightarrow> string list \<Rightarrow> main_outcome" where
  "main LONG_BIT lib eth0 wlan0 argv =
     (case main_parse_args argv of
        Inl status \<Rightarrow> Exit status
      | Inr opts \<Rightarrow>
          (case resolve_hw_addr LONG_BIT (find_mac eth0 wlan0) of
             Inl ex \<Rightarrow> Uncaught ex
           | Inr server_hw_addr \<Rightarrow>
               (case start_server lib server_hw_addr (server_name opts)
                       (show_background opts) (audio_device opts) (low_latency opts)
                       initial_globals of
                  (r, s) \<Rightarrow> if r \<noteq> 0 then Exit 1 else Running (At_set_running, s))))"

section \<open>The calls of \<open>start_server\<close>, phase by phase\<close>

text \<open>
  Used to state what \<open>start_server\<close> has called when it returns: the calls of lines
  202--219 once the protocol engine exists, those of lines 224--226, and those of lines
  231--240 once both renderers are settled. \<open>audio_after\<close> is the audio renderer pointer
  after line 226.
\<close>

definition engine_calls :: "library \<Rightarrow> bool \<Rightarrow> bool \<Rightarrow> call list" where
  "engine_calls lib show_background' low_latency' =
     [call_raop_init 10, call_LOG LOGD ''raop init success'',
      call_raop_set_log_callback (raop_init_result lib),
      call_raop_set_log_level (raop_init_result lib) RAOP_LOG_DEBUG,
      call_logger_init, call_logger_set_callback (logger_init_result lib),
      call_logger_set_level (logger_init_result lib) LOGGER_DEBUG]
     @ (if low_latency'
        then [call_logger_log (logger_init_result lib) LOGGER_INFO ''Using low-latency mode'']
        else [])
     @ [call_video_renderer_init (logger_init_result lib) show_background' low_latency']"

definition audio_calls :: "library \<Rightarrow> audio_device_t \<Rightarrow> bool \<Rightarrow> call list" where
  "audio_calls lib audio_device' low_latency' =
     (if audio_device' = AUDIO_DEVICE_NONE then [call_LOG LOGI ''Audio disabled'']
      else [call_audio_renderer_init (logger_init_result lib)
              (video_renderer_init_result lib) audio_device' low_latency'])"

definition audio_after :: "library \<Rightarrow> audio_device_t \<Rightarrow> globals \<Rightarrow> handle option" where
  "audio_after lib audio_device' s =
     (if audio_device' = AUDIO_DEVICE_NONE then audio_renderer s
      else audio_renderer_init_result lib)"

definition network_calls ::
  "library \<Rightarrow> byte list \<Rightarrow> string \<Rightarrow> audio_device_t \<Rightarrow> globals \<Rightarrow> call list" where
  "network_calls lib hw_addr name audio_device' s =
     [call_video_renderer_start (video_renderer_init_result lib)]
     @ (if audio_after lib audio_device' s \<noteq> None
        then [call_audio_renderer_start (audio_after lib audio_device' s)] else [])
     @ [call_raop_start (raop_init_result lib),
        call_raop_set_port (raop_init_result lib) (raop_start_port lib),
        call_raop_get_port (raop_init_result lib),
        call_LOG LOGD ''raop port = % d'',
        call_dnssd_init (c_str name) (length (c_str name)) hw_addr (length hw_addr)]"

text \<open>The two calls that advertise a service.\<close>

fun is_register :: "call \<Rightarrow> bool" where
  "is_register (call_dnssd_register_raop h p) = True"
| "is_register (call_dnssd_register_airplay h p) = True"
| "is_register other = False"

section \<open>Example libraries\<close>

text \<open>
  A library in which every call succeeds, with handles 1 to 5 and port 5000; the examples
  below change one result at a time.
\<close>

definition lib_ok :: library where
  "lib_ok =
     \<lparr>raop_init_result = Some 1, logger_init_result = Some 2,
      video_renderer_init_result = Some 3, audio_renderer_init_result = Some 4,
      raop_start_port = 5000, dnssd_init_result = Some 5, dnssd_init_error = 0\<rparr>"

section \<open>What the run loop may have done\<close>

text \<open>
  The five calls of \<open>stop_server\<close> on the handles of \<open>s\<close>, and the statement that a
  run which started at the loop head in \<open>s\<close> has kept the four handles and has either
  run \<open>stop_server\<close> exactly once (it has returned 0) or has not torn anything
  down (it is still at the loop head, or a default action has taken over).
\<close>

definition stop_calls :: "globals \<Rightarrow> call list" where
  "stop_calls s =
     [call_raop_destroy (raop s), call_dnssd_unregister_raop (dnssd s),
      call_dnssd_unregister_airplay (dnssd s),
      call_audio_renderer_destroy (audio_renderer s),
      call_video_renderer_destroy (video_renderer s)]"

definition same_handles :: "globals \<Rightarrow> globals \<Rightarrow> bool" where
  "same_handles s s' =
     (dnssd s' = dnssd s \<and> raop s' = raop s \<and> video_renderer s' = video_renderer s
      \<and> audio_renderer s' = audio_renderer s)"

definition stopped_at_most_once :: "globals \<Rightarrow> pc \<times> globals \<Rightarrow> bool" where
  "stopped_at_most_once s st =
     (same_handles s (snd st) \<and>
      (case fst st of
         At_set_running \<Rightarrow> False
       | At_loop_head \<Rightarrow>
           filter is_teardown (calls (snd st)) = filter is_teardown (calls s)
       | Returned status \<Rightarrow>
           status = 0 \<and>
           filter is_teardown (calls (snd st)) = filter is_teardown (calls s) @ stop_calls s
       | Default_action k \<Rightarrow>
           filter is_teardown (calls (snd st)) = filter is_teardown (calls s)))"

section \<open>What \<open>start_server\<close> returns and leaves behind\<close>

lemma do_call_if:
  "(if b then do_call c s else s) = s\<lparr>calls := calls s @ (if b then [c] else [])\<rparr>"
  by (simp add: do_call_def)

lemma start_server_engine_fails:
  assumes "raop_init_result lib = None"
  shows "start_server lib hw_addr name sb ad ll s =
     (- 1, s\<lparr>raop := None,
            calls := calls s @ [call_raop_init 10, call_LOG LOGE ''raop = NULL'']\<rparr>)"
  using assms by (simp add: start_server_def Let_def do_call_def)

lemma start_server_video_fails:
  assumes "raop_init_result lib \<noteq> None" "video_renderer_init_result lib = None"
  shows "start_server lib hw_addr name sb ad ll s =
     (- 1, s\<lparr>raop := raop_init_result lib, video_renderer := None,
            calls := calls s @ engine_calls lib sb ll
                     @ [call_LOG LOGE ''Could not init video renderer'']\<rparr>)"
proof -
  from assms obtain r where "raop_init_result lib = Some r" by auto
  with assms(2) show ?thesis
    by (simp add: start_server_def Let_def do_call_if do_call_def engine_calls_def)
qed

lemma start_server_audio_fails:
  assumes "raop_init_result lib \<noteq> None" "video_renderer_init_result lib \<noteq> None"
    "ad \<noteq> AUDIO_DEVICE_NONE" "audio_renderer_init_result lib = None"
  shows "start_server lib hw_addr name sb ad ll s =
     (- 1, s\<lparr>raop := raop_init_result lib, video_renderer := video_renderer_init_result lib,
            audio_renderer := None,
            calls := calls s @ engine_calls lib sb ll @ audio_calls lib ad ll
                     @ [call_LOG LOGE ''Could not init audio renderer'']\<rparr>)"
proof -
  from assms obtain r v where "raop_init_result lib = Some r"
    "video_renderer_init_result lib = Some v" by auto
  with assms(3,4) show ?thesis
    by (simp add: start_server_def Let_def do_call_if do_call_def engine_calls_def
          audio_calls_def)
qed

lemma start_server_network:
  assumes "raop_init_result lib \<noteq> None" "video_renderer_init_result lib \<noteq> None"
    "ad \<noteq> AUDIO_DEVICE_NONE \<longrightarrow> audio_renderer_init_result lib \<noteq> None"
  shows "start_server lib hw_addr name sb ad ll s =
     (if dnssd_init_error lib \<noteq> 0 then - 2 else 0,
      s\<lparr>dnssd := dnssd_init_result lib, raop := raop_init_result lib,
        video_renderer := video_renderer_init_result lib,
        audio_renderer := audio_after lib ad s,
        calls := calls s @ engine_calls lib sb ll @ audio_calls lib ad ll
                 @ network_calls lib hw_addr name ad s
                 @ (if dnssd_init_error lib \<noteq> 0
                    then [call_LOG LOGE ''Could not initialize dnssd library!'']
                    else [call_raop_set_dnssd (raop_init_result lib) (dnssd_init_result lib),
                          call_dnssd_register_raop (dnssd_init_result lib)
                            (uint (raop_start_port lib)),
                          call_dnssd_register_airplay (dnssd_init_result lib)
                            (uint (raop_start_port lib) + 1)])\<rparr>)"
proof -
  from assms obtain r v where rv: "raop_init_result lib = Some r"
    "video_renderer_init_result lib = Some v" by auto
  show ?thesis
  proof (cases "ad = AUDIO_DEVICE_NONE")
    case True
    with rv show ?thesis
      by (cases "dnssd_init_error lib = 0")
         (simp_all add: start_server_def Let_def do_call_if do_call_def engine_calls_def
            audio_calls_def network_calls_def audio_after_def)
  next
    case False
    with assms(3) obtain a where "audio_renderer_init_result lib = Some a" by auto
    with rv False show ?thesis
      by (cases "dnssd_init_error lib = 0")
         (simp_all add: start_server_def Let_def do_call_if do_call_def engine_calls_def
            audio_calls_def network_calls_def audio_after_def)
  qed
qed

lemma start_server_cases:
  obtains
    (engine) "raop_init_result lib = None"
  | (video) "raop_init_result lib \<noteq> None" "video_renderer_init_result lib = None"
  | (audio) "raop_init_result lib \<noteq> None" "video_renderer_init_result lib \<noteq> None"
      "ad \<noteq> AUDIO_DEVICE_NONE" "audio_renderer_init_result lib = None"
  | (network) "raop_init_result lib \<noteq> None" "video_renderer_init_result lib \<noteq> None"
      "ad \<noteq> AUDIO_DEVICE_NONE \<longrightarrow> audio_renderer_init_result lib \<noteq> None"
  by blast

lemma teardown_engine_calls [simp]: "filter is_teardown (engine_calls lib sb ll) = []"
  by (simp add: engine_calls_def)

lemma teardown_audio_calls [simp]: "filter is_teardown (audio_calls lib ad ll) = []"
  by (simp add: audio_calls_def)

lemma teardown_network_calls [simp]:
  "filter is_teardown (network_calls lib hw_addr name ad s) = []"
  by (simp add: network_calls_def)

lemma register_engine_calls [simp]: "filter is_register (engine_calls lib sb ll) = []"
  by (simp add: engine_calls_def)

lemma register_audio_calls [simp]: "filter is_register (audio_calls lib ad ll) = []"
  by (simp add: audio_calls_def)

lemma register_network_calls [simp]:
  "filter is_register (network_calls lib hw_addr name ad s) = []"
  by (simp add: network_calls_def)

subsection \<open>A failed start\<close>

text \<open>
  Claim C1 says that a failing \<open>start_server\<close> destroys what it had constructed before
  it returns. It does not: when the video renderer cannot be constructed, the function
  returns \<open>-1\<close> with the protocol engine (handle 1) still in \<open>raop\<close>, and the calls it
  has made, listed in full, hold no \<open>raop_destroy\<close>. The diagnostics sink (handle 2)
  was held by a local variable only.
\<close>

theorem start_server_leaves_engine_alive:
  "start_server (lib_ok\<lparr>video_renderer_init_result := None\<rparr>) DEFAULT_HW_ADDRESS ''RPiPlay''
     True AUDIO_DEVICE_HDMI False initial_globals =
   (- 1, initial_globals\<lparr>raop := Some 1,
      calls := [call_raop_init 10, call_LOG LOGD ''raop init success'',
                call_raop_set_log_callback (Some 1),
                call_raop_set_log_level (Some 1) RAOP_LOG_DEBUG,
                call_logger_init, call_logger_set_callback (Some 2),
                call_logger_set_level (Some 2) LOGGER_DEBUG,
                call_video_renderer_init (Some 2) True False,
                call_LOG LOGE ''Could not init video renderer'']\<rparr>)"
  by (simp add: start_server_video_fails lib_ok_def engine_calls_def initial_globals_def)

text \<open>
  Claim C1, as the code has it: when \<open>start_server\<close> fails at any step it returns at
  once and unwinds nothing. It makes no destroy or unregister call, and every subsystem
  constructed in an earlier step is still held by its static pointer when the function
  returns: the engine always, the video renderer once the engine exists, the audio
  renderer once it has been asked for, the discovery handle once all of them exist.
\<close>

theorem start_server_failure_unwinds_nothing:
  assumes "start_server lib hw_addr name sb ad ll s = (r, s')" and "r \<noteq> 0"
  shows "filter is_teardown (calls s') = filter is_teardown (calls s)
     \<and> raop s' = raop_init_result lib
     \<and> (raop_init_result lib \<noteq> None \<longrightarrow> video_renderer s' = video_renderer_init_result lib)
     \<and> (raop_init_result lib \<noteq> None \<and> video_renderer_init_result lib \<noteq> None
          \<and> ad \<noteq> AUDIO_DEVICE_NONE \<longrightarrow> audio_renderer s' = audio_renderer_init_result lib)
     \<and> (raop_init_result lib \<noteq> None \<and> video_renderer_init_result lib \<noteq> None
          \<and> (ad \<noteq> AUDIO_DEVICE_NONE \<longrightarrow> audio_renderer_init_result lib \<noteq> None)
          \<longrightarrow> dnssd s' = dnssd_init_result lib)"
proof (cases rule: start_server_cases [where lib = lib and ad = ad])
  case engine
  with assms show ?thesis by (auto simp add: start_server_engine_fails)
next
  case video
  with assms show ?thesis by (auto simp add: start_server_video_fails)
next
  case audio
  with assms show ?thesis by (auto simp add: start_server_audio_fails)
next
  case network
  with assms show ?thesis
    by (auto simp add: start_server_network audio_after_def split: if_splits)
qed

theorem start_server_failure_unwinds_nothing_witness:
  "fst (start_server (lib_ok\<lparr>dnssd_init_error := 1\<rparr>) DEFAULT_HW_ADDRESS ''RPiPlay''
          True AUDIO_DEVICE_HDMI False initial_globals) = - 2
   \<and> filter is_teardown (calls (snd (start_server (lib_ok\<lparr>dnssd_init_error := 1\<rparr>)
          DEFAULT_HW_ADDRESS ''RPiPlay'' True AUDIO_DEVICE_HDMI False initial_globals))) = []
   \<and> raop (snd (start_server (lib_ok\<lparr>dnssd_init_error := 1\<rparr>)
          DEFAULT_HW_ADDRESS ''RPiPlay'' True AUDIO_DEVICE_HDMI False initial_globals)) = Some 1
   \<and> video_renderer (snd (start_server (lib_ok\<lparr>dnssd_init_error := 1\<rparr>)
          DEFAULT_HW_ADDRESS ''RPiPlay'' True AUDIO_DEVICE_HDMI False initial_globals)) = Some 3
   \<and> audio_renderer (snd (start_server (lib_ok\<lparr>dnssd_init_error := 1\<rparr>)
          DEFAULT_HW_ADDRESS ''RPiPlay'' True AUDIO_DEVICE_HDMI False initial_globals)) = Some 4
   \<and> dnssd (snd (start_server (lib_ok\<lparr>dnssd_init_error := 1\<rparr>)
          DEFAULT_HW_ADDRESS ''RPiPlay'' True AUDIO_DEVICE_HDMI False initial_globals)) = Some 5"
proof -
  let ?r = "start_server (lib_ok\<lparr>dnssd_init_error := 1\<rparr>) DEFAULT_HW_ADDRESS ''RPiPlay''
          True AUDIO_DEVICE_HDMI False initial_globals"
  have ret: "fst ?r = - 2"
    by (simp add: start_server_network lib_ok_def)
  then have "?r = (- 2, snd ?r)"
    by (metis prod.collapse)
  from start_server_failure_unwinds_nothing [OF this] ret show ?thesis
    by (simp add: lib_ok_def initial_globals_def)
qed

subsection \<open>The returned value\<close>

text \<open>
  Claim C3 says that the four causes of failure come back as four distinct values. Three
  of them come back as the same value: the engine, the video renderer and the audio
  renderer failing each make \<open>start_server\<close> return \<open>-1\<close>.
\<close>

theorem start_server_same_value_for_three_causes:
  "fst (start_server (lib_ok\<lparr>raop_init_result := None\<rparr>) DEFAULT_HW_ADDRESS ''RPiPlay''
          True AUDIO_DEVICE_HDMI False initial_globals) = - 1
   \<and> fst (start_server (lib_ok\<lparr>video_renderer_init_result := None\<rparr>) DEFAULT_HW_ADDRESS
          ''RPiPlay'' True AUDIO_DEVICE_HDMI False initial_globals) = - 1
   \<and> fst (start_server (lib_ok\<lparr>audio_renderer_init_result := None\<rparr>) DEFAULT_HW_ADDRESS
          ''RPiPlay'' True AUDIO_DEVICE_HDMI False initial_globals) = - 1"
  by (simp add: start_server_engine_fails start_server_video_fails start_server_audio_fails
        lib_ok_def)

text \<open>
  Claim C3, as the code has it: \<open>start_server\<close> returns a value other than 0 for each
  of the four causes, \<open>-1\<close> when the engine, the video renderer or the audio renderer
  cannot be constructed and \<open>-2\<close> when discovery reports an error, so the value tells
  a discovery failure from the other three and not these three from each other; what
  tells all four apart is the message logged at error level just before returning,
  the last call made. The first cause in the order of the steps decides.
\<close>

theorem start_server_return_values:
  "(let r = start_server lib hw_addr name sb ad ll s in (fst r, last (calls (snd r)))) =
     (if raop_init_result lib = None then (- 1, call_LOG LOGE ''raop = NULL'')
      else if video_renderer_init_result lib = None
        then (- 1, call_LOG LOGE ''Could not init video renderer'')
      else if ad \<noteq> AUDIO_DEVICE_NONE \<and> audio_renderer_init_result lib = None
        then (- 1, call_LOG LOGE ''Could not init audio renderer'')
      else if dnssd_init_error lib \<noteq> 0
        then (- 2, call_LOG LOGE ''Could not initialize dnssd library!'')
      else (0, call_dnssd_register_airplay (dnssd_init_result lib)
                 (uint (raop_start_port lib) + 1)))"
proof (cases rule: start_server_cases [where lib = lib and ad = ad])
  case engine
  then show ?thesis by (simp add: start_server_engine_fails)
next
  case video
  then show ?thesis by (simp add: start_server_video_fails)
next
  case audio
  then show ?thesis by (simp add: start_server_audio_fails)
next
  case network
  then show ?thesis by (auto simp add: start_server_network)
qed

theorem start_server_return_values_witness:
  "fst (start_server (lib_ok\<lparr>dnssd_init_error := 1\<rparr>) DEFAULT_HW_ADDRESS ''RPiPlay''
          True AUDIO_DEVICE_HDMI False initial_globals) = - 2
   \<and> last (calls (snd (start_server (lib_ok\<lparr>dnssd_init_error := 1\<rparr>) DEFAULT_HW_ADDRESS
          ''RPiPlay'' True AUDIO_DEVICE_HDMI False initial_globals)))
       = call_LOG LOGE ''Could not initialize dnssd library!''"
  using start_server_return_values [of "lib_ok\<lparr>dnssd_init_error := 1\<rparr>" DEFAULT_HW_ADDRESS
      "''RPiPlay''" True AUDIO_DEVICE_HDMI False initial_globals]
  by (simp add: lib_ok_def Let_def)

subsection \<open>A successful start\<close>

text \<open>
  Claim C4: whatever port \<open>raop_start\<close> hands back, a successful \<open>start_server\<close>
  advertises exactly two services, in this order: the primary one on that port and the
  companion one on that port plus one. The sum is computed in \<open>int\<close> and does not wrap
  (65536 for port 65535); converted to a 16-bit unsigned parameter it is the port plus
  one modulo \<open>2 ^ 16\<close>.
\<close>

theorem start_server_advertised_ports:
  assumes "start_server lib hw_addr name sb ad ll s = (0, s')"
  shows "filter is_register (calls s') = filter is_register (calls s) @
           [call_dnssd_register_raop (dnssd s') (uint (raop_start_port lib)),
            call_dnssd_register_airplay (dnssd s') (uint (raop_start_port lib) + 1)]
         \<and> (word_of_int (uint (raop_start_port lib) + 1) :: 16 word) = raop_start_port lib + 1"
proof (cases rule: start_server_cases [where lib = lib and ad = ad])
  case engine
  with assms show ?thesis by (simp add: start_server_engine_fails)
next
  case video
  with assms show ?thesis by (simp add: start_server_video_fails)
next
  case audio
  with assms show ?thesis by (simp add: start_server_audio_fails)
next
  case network
  with assms show ?thesis
    by (auto simp add: start_server_network split: if_splits)
qed

theorem start_server_advertised_ports_witness:
  "fst (start_server (lib_ok\<lparr>raop_start_port := 65535\<rparr>) DEFAULT_HW_ADDRESS ''RPiPlay''
          True AUDIO_DEVICE_HDMI False initial_globals) = 0
   \<and> filter is_register (calls (snd (start_server (lib_ok\<lparr>raop_start_port := 65535\<rparr>)
          DEFAULT_HW_ADDRESS ''RPiPlay'' True AUDIO_DEVICE_HDMI False initial_globals)))
       = [call_dnssd_register_raop (Some 5) 65535, call_dnssd_register_airplay (Some 5) 65536]
   \<and> (word_of_int 65536 :: 16 word) = 0"
proof -
  let ?r = "start_server (lib_ok\<lparr>raop_start_port := 65535\<rparr>) DEFAULT_HW_ADDRESS ''RPiPlay''
          True AUDIO_DEVICE_HDMI False initial_globals"
  have ret: "fst ?r = 0"
    by (simp add: start_server_network lib_ok_def)
  then have eq: "?r = (0, snd ?r)"
    by (metis prod.collapse)
  have d: "dnssd (snd ?r) = Some 5"
    by (simp add: start_server_network lib_ok_def)
  from start_server_advertised_ports [OF eq] ret d show ?thesis
    by (simp add: lib_ok_def initial_globals_def)
qed

text \<open>
  Claim C5: after a successful \<open>start_server\<close> the audio renderer pointer is set if and
  only if the audio device is not \<open>AUDIO_DEVICE_NONE\<close>. The function leaves the pointer
  alone when audio is disabled, so this is stated for a call made while the pointer is
  null, as its static initialiser leaves it; \<open>main\<close> makes the only call, in the
  initial state, and the second part states the same for the state in which \<open>main\<close>
  reaches its run loop, with the device chosen on the command line.
\<close>

theorem start_server_audio_presence:
  "(start_server lib hw_addr name sb ad ll s = (0, s') \<and> audio_renderer s = None \<longrightarrow>
      (audio_renderer s' \<noteq> None) = (ad \<noteq> AUDIO_DEVICE_NONE))
   \<and> (main LONG_BIT lib eth0 wlan0 argv = Running (p, s') \<longrightarrow>
        (\<exists>opts. main_parse_args argv = Inr opts
           \<and> (audio_renderer s' \<noteq> None) = (audio_device opts \<noteq> AUDIO_DEVICE_NONE)))"
proof -
  have start: "(audio_renderer s' \<noteq> None) = (ad \<noteq> AUDIO_DEVICE_NONE)"
    if "start_server lib hw_addr name sb ad ll s = (0, s')" and "audio_renderer s = None"
    for hw_addr name sb ad ll s
  proof (cases rule: start_server_cases [where lib = lib and ad = ad])
    case engine
    with that show ?thesis by (simp add: start_server_engine_fails)
  next
    case video
    with that show ?thesis by (simp add: start_server_video_fails)
  next
    case audio
    with that show ?thesis by (simp add: start_server_audio_fails)
  next
    case network
    with that show ?thesis
      by (auto simp add: start_server_network audio_after_def split: if_splits)
  qed
  have "\<exists>opts. main_parse_args argv = Inr opts
           \<and> (audio_renderer s' \<noteq> None) = (audio_device opts \<noteq> AUDIO_DEVICE_NONE)"
    if m: "main LONG_BIT lib eth0 wlan0 argv = Running (p, s')"
  proof -
    from m obtain opts server_hw_addr where
      opts: "main_parse_args argv = Inr opts"
      and run: "start_server lib server_hw_addr (server_name opts) (show_background opts)
                  (audio_device opts) (low_latency opts) initial_globals = (0, s')"
      by (auto simp add: main_def split: sum.splits prod.splits if_splits)
    have "audio_renderer initial_globals = None"
      by (simp add: initial_globals_def)
    from start [OF run this] opts show ?thesis by simp
  qed
  with start show ?thesis by blast
qed

theorem start_server_audio_presence_witness:
  "audio_renderer (snd (start_server lib_ok DEFAULT_HW_ADDRESS ''RPiPlay'' True
       AUDIO_DEVICE_HDMI False initial_globals)) = Some 4
   \<and> audio_renderer (snd (start_server lib_ok DEFAULT_HW_ADDRESS ''RPiPlay'' True
       AUDIO_DEVICE_NONE False initial_globals)) = None
   \<and> fst (start_server lib_ok DEFAULT_HW_ADDRESS ''RPiPlay'' True
       AUDIO_DEVICE_HDMI False initial_globals) = 0
   \<and> fst (start_server lib_ok DEFAULT_HW_ADDRESS ''RPiPlay'' True
       AUDIO_DEVICE_NONE False initial_globals) = 0"
proof -
  let ?h = "start_server lib_ok DEFAULT_HW_ADDRESS ''RPiPlay'' True
       AUDIO_DEVICE_HDMI False initial_globals"
  let ?n = "start_server lib_ok DEFAULT_HW_ADDRESS ''RPiPlay'' True
       AUDIO_DEVICE_NONE False initial_globals"
  have rh: "fst ?h = 0" and rn: "fst ?n = 0"
    by (simp_all add: start_server_network lib_ok_def)
  have h: "?h = (0, snd ?h)" and n: "?n = (0, snd ?n)"
    using rh rn by (metis prod.collapse)+
  have i: "audio_renderer initial_globals = None"
    by (simp add: initial_globals_def)
  have "audio_renderer (snd ?h) \<noteq> None"
    using start_server_audio_presence [of lib_ok _ _ _ AUDIO_DEVICE_HDMI] h i by blast
  moreover have "audio_renderer (snd ?h) = audio_renderer_init_result lib_ok"
    by (simp add: start_server_network lib_ok_def audio_after_def)
  moreover have "audio_renderer (snd ?n) = None"
    using start_server_audio_presence [of lib_ok _ _ _ AUDIO_DEVICE_NONE] n i by blast
  ultimately show ?thesis using rh rn by (simp add: lib_ok_def)
qed

section \<open>The order of \<open>stop_server\<close>\<close>

text \<open>
  Claim C2: in every state \<open>stop_server\<close> returns 0 and makes exactly five calls, in
  this order: it destroys the protocol engine, withdraws the two advertised services,
  destroys the audio renderer, and destroys the video renderer last. It passes on
  whatever the static pointers hold: after a successful \<open>start_server\<close> these are the
  handles that were constructed, and with audio disabled the fourth call is still made,
  on the pointer as it was (null in a run of \<open>main\<close>).
\<close>

theorem stop_server_order:
  "stop_server s =
     (0, s\<lparr>calls := calls s @
            [call_raop_destroy (raop s), call_dnssd_unregister_raop (dnssd s),
             call_dnssd_unregister_airplay (dnssd s),
             call_audio_renderer_destroy (audio_renderer s),
             call_video_renderer_destroy (video_renderer s)]\<rparr>)
   \<and> (start_server lib hw_addr name sb ad ll s0 = (0, s) \<longrightarrow>
        filter is_teardown (calls (snd (stop_server s))) =
          filter is_teardown (calls s0) @
            [call_raop_destroy (raop_init_result lib),
             call_dnssd_unregister_raop (dnssd_init_result lib),
             call_dnssd_unregister_airplay (dnssd_init_result lib),
             call_audio_renderer_destroy (audio_after lib ad s0),
             call_video_renderer_destroy (video_renderer_init_result lib)])"
proof (intro conjI impI)
  show stop: "stop_server s =
     (0, s\<lparr>calls := calls s @
            [call_raop_destroy (raop s), call_dnssd_unregister_raop (dnssd s),
             call_dnssd_unregister_airplay (dnssd s),
             call_audio_renderer_destroy (audio_renderer s),
             call_video_renderer_destroy (video_renderer s)]\<rparr>)"
    by (simp add: stop_server_def do_call_def)
  assume start: "start_server lib hw_addr name sb ad ll s0 = (0, s)"
  show "filter is_teardown (calls (snd (stop_server s))) =
          filter is_teardown (calls s0) @
            [call_raop_destroy (raop_init_result lib),
             call_dnssd_unregister_raop (dnssd_init_result lib),
             call_dnssd_unregister_airplay (dnssd_init_result lib),
             call_audio_renderer_destroy (audio_after lib ad s0),
             call_video_renderer_destroy (video_renderer_init_result lib)]"
  proof (cases rule: start_server_cases [where lib = lib and ad = ad])
    case engine
    with start show ?thesis by (simp add: start_server_engine_fails)
  next
    case video
    with start show ?thesis by (simp add: start_server_video_fails)
  next
    case audio
    with start show ?thesis by (simp add: start_server_audio_fails)
  next
    case network
    with start have "dnssd_init_error lib = 0"
      by (auto simp add: start_server_network split: if_splits)
    with network start show ?thesis
      unfolding stop by (auto simp add: start_server_network)
  qed
qed

theorem stop_server_order_witness:
  "fst (start_server lib_ok DEFAULT_HW_ADDRESS ''RPiPlay'' True AUDIO_DEVICE_NONE False
          initial_globals) = 0
   \<and> filter is_teardown (calls (snd (stop_server (snd (start_server lib_ok DEFAULT_HW_ADDRESS
          ''RPiPlay'' True AUDIO_DEVICE_NONE False initial_globals)))))
     = [call_raop_destroy (Some 1), call_dnssd_unregister_raop (Some 5),
        call_dnssd_unregister_airplay (Some 5), call_audio_renderer_destroy None,
        call_video_renderer_destroy (Some 3)]"
proof -
  let ?r = "start_server lib_ok DEFAULT_HW_ADDRESS ''RPiPlay'' True AUDIO_DEVICE_NONE False
          initial_globals"
  have ret: "fst ?r = 0"
    by (simp add: start_server_network lib_ok_def)
  then have eq: "?r = (0, snd ?r)"
    by (metis prod.collapse)
  from stop_server_order [of "snd ?r" lib_ok DEFAULT_HW_ADDRESS "''RPiPlay''" True
      AUDIO_DEVICE_NONE False initial_globals] eq
  have "filter is_teardown (calls (snd (stop_server (snd ?r)))) =
          filter is_teardown (calls initial_globals) @
            [call_raop_destroy (raop_init_result lib_ok),
             call_dnssd_unregister_raop (dnssd_init_result lib_ok),
             call_dnssd_unregister_airplay (dnssd_init_result lib_ok),
             call_audio_renderer_destroy (audio_after lib_ok AUDIO_DEVICE_NONE initial_globals),
             call_video_renderer_destroy (video_renderer_init_result lib_ok)]"
    by blast
  with ret show ?thesis
    by (simp add: lib_ok_def audio_after_def initial_globals_def)
qed

section \<open>The argument loop\<close>

text \<open>The run of the loop from index \<open>i\<close> depends on the arguments from \<open>i\<close> on only.\<close>

lemma parse_args_suffix:
  "drop i argv = drop j argv' \<Longrightarrow> parse_args argv i opts = parse_args argv' j opts"
proof (induction argv i opts arbitrary: j rule: parse_args.induct)
  case (1 argv i opts)
  note eq = \<open>drop i argv = drop j argv'\<close>
  show ?case
  proof (cases "i < length argv")
    case False
    with eq have "\<not> j < length argv'"
      by (metis drop_eq_Nil not_le_imp_less leD)
    with False show ?thesis
      by (simp add: parse_args.simps [of argv i] parse_args.simps [of argv' j])
  next
    case True
    with eq have j: "j < length argv'"
      by (metis drop_eq_Nil not_le_imp_less leD)
    have hd: "argv ! i = argv' ! j"
      using eq True j by (metis hd_drop_conv_nth)
    have len: "length argv - i = length argv' - j"
      using eq by (metis length_drop)
    have last: "(i = length argv - 1) = (j = length argv' - 1)"
      using len True j by arith
    have d1: "drop (i + 1) argv = drop (j + 1) argv'"
      using eq by (metis drop_drop add.commute)
    have d2: "drop (i + 2) argv = drop (j + 2) argv'"
      using eq by (metis drop_drop add.commute)
    have nxt: "i \<noteq> length argv - 1 \<Longrightarrow> argv ! (i + 1) = argv' ! (j + 1)"
    proof -
      assume "i \<noteq> length argv - 1"
      then have "i + 1 < length argv" "j + 1 < length argv'"
        using True j last by arith+
      then show ?thesis using d1 by (metis hd_drop_conv_nth)
    qed
    show ?thesis
      using True j hd last nxt "1.IH"(1)[OF True _ _ d1] "1.IH"(2)[OF True _ _ d2]
        "1.IH"(3)[OF True _ _ d1] "1.IH"(4)[OF True _ _ _ _ d1] "1.IH"(5)[OF True _ _ _ _ d2]
        "1.IH"(6)[OF True _ _ _ _ d1] "1.IH"(7)[OF True _ _ _ _ _ d1]
      apply (subst parse_args.simps [of argv i])
      apply (subst parse_args.simps [of argv' j])
      apply (simp only: if_True)
      by (auto split: if_splits)
  qed
qed




text \<open>
  Claim C10: when the loop reaches an argument that is none of \<open>-n\<close>, \<open>-b\<close>, \<open>-a\<close>,
  \<open>-l\<close>, \<open>-h\<close>, \<open>-v\<close> (reaching it means that it was not taken as the value of a
  preceding \<open>-n\<close> or \<open>-a\<close>), it goes on to the next argument with the options
  unchanged, and the whole run gives what it gives for the command line without that
  argument: no field changes, and no exit comes from it.
\<close>

theorem unknown_argument_ignored:
  assumes "i < length argv"
    and "argv ! i \<notin> {''-n'', ''-b'', ''-a'', ''-l'', ''-h'', ''-v''}"
  shows "parse_args argv i opts = parse_args argv (i + 1) opts
       \<and> parse_args argv i opts = parse_args (take i argv @ drop (i + 1) argv) i opts"
proof -
  have a: "parse_args argv i opts = parse_args argv (i + 1) opts"
    by (subst parse_args.simps [of argv i]) (use assms in auto)
  have "drop (i + 1) argv = drop i (take i argv @ drop (i + 1) argv)"
    using assms(1) by simp
  then have "parse_args argv (i + 1) opts = parse_args (take i argv @ drop (i + 1) argv) i opts"
    by (rule parse_args_suffix)
  with a show ?thesis by simp
qed

theorem unknown_argument_ignored_witness:
  "parse_args [''rpiplay'', ''--fullscreen'', ''-n'', ''tv'', ''-l''] 1 default_options
     = parse_args [''rpiplay'', ''-n'', ''tv'', ''-l''] 1 default_options
   \<and> parse_args [''rpiplay'', ''-n'', ''tv'', ''-l''] 1 default_options
     = Inr (default_options\<lparr>server_name := ''tv'', low_latency := True\<rparr>)"
  using unknown_argument_ignored [of 1 "[''rpiplay'', ''--fullscreen'', ''-n'', ''tv'', ''-l'']"
      default_options]
  by (simp add: parse_args.simps default_options_def DEFAULT_LOW_LATENCY_def)

section \<open>Parsing the hardware address\<close>

text \<open>
  Two hexadecimal digits followed by the end of the text or by a character that is no
  hexadecimal digit are read by \<open>std::stol\<close> as the number they denote.
\<close>

lemma isxdigit_plain:
  "isxdigit c \<Longrightarrow> \<not> isspace c \<and> c \<noteq> CHR ''-'' \<and> c \<noteq> CHR ''+'' \<and> c \<noteq> CHR ''x'' \<and> c \<noteq> CHR ''X''"
  by (auto simp add: isxdigit_def digit_value_def isspace_def)

lemma long_holds_byte:
  assumes "9 \<le> LONG_BIT" and "0 \<le> v" and "v < 256"
  shows "\<not> (v < - (2 ^ (LONG_BIT - 1)) \<or> 2 ^ (LONG_BIT - 1) - 1 < (v :: int))"
proof -
  have "(2 :: int) ^ 8 \<le> 2 ^ (LONG_BIT - 1)"
    using assms(1) by (intro power_increasing) simp_all
  with assms(2,3) show ?thesis by simp
qed

lemma stol_pair:
  assumes "isxdigit a" and "isxdigit b" and "rest = [] \<or> \<not> isxdigit (hd rest)"
    and "9 \<le> LONG_BIT"
  shows "stol LONG_BIT (a # b # rest) = Inr (16 * int (digit_value a) + int (digit_value b))"
proof -
  have tw: "takeWhile isxdigit (a # b # rest) = [a, b]"
    using assms(1,2,3) by (cases rest) auto
  have pre: "\<not> has_hex_prefix (a # b # rest)"
    using isxdigit_plain [OF assms(2)] by (cases rest) simp_all
  have r: "\<not> (16 * int (digit_value a) + int (digit_value b) < - (2 ^ (LONG_BIT - 1))
           \<or> 2 ^ (LONG_BIT - 1) - 1 < 16 * int (digit_value a) + int (digit_value b))"
    using assms(1,2) by (intro long_holds_byte [OF assms(4)]) (simp_all add: isxdigit_def)
  show ?thesis
    using isxdigit_plain [OF assms(1)] tw pre r
    by (simp add: stol_def Let_def)
qed

lemma chunk_count: "i < n \<Longrightarrow> (n - i + 2) div 3 = Suc ((n - (i + 3) + 2) div 3)"
  by arith

lemma parse_hw_addr_loop_appends:
  "parse_hw_addr_loop LONG_BIT str i hw_addr = Inr out \<Longrightarrow>
   \<exists>bs. out = hw_addr @ bs \<and> length bs = (length str - i + 2) div 3"
proof (induction LONG_BIT str i hw_addr rule: parse_hw_addr_loop.induct)
  case (1 LONG_BIT str i hw_addr)
  show ?case
  proof (cases "i < length str")
    case False
    with "1.prems" show ?thesis
      by (simp add: parse_hw_addr_loop.simps [of LONG_BIT str i])
  next
    case True
    with "1.prems" obtain v where v: "stol LONG_BIT (drop i str) = Inr v"
      and ok: "\<not> INT_MAX < i + 3"
      and rec: "parse_hw_addr_loop LONG_BIT str (i + 3) (hw_addr @ [word_of_int v]) = Inr out"
      by (auto simp add: parse_hw_addr_loop.simps [of LONG_BIT str i]
            split: sum.splits if_splits)
    from "1.IH" [OF True v ok rec] obtain bs where
      "out = (hw_addr @ [word_of_int v]) @ bs" "length bs = (length str - (i + 3) + 2) div 3"
      by blast
    then have "out = hw_addr @ word_of_int v # bs \<and> length bs = (length str - (i + 3) + 2) div 3"
      by simp
    moreover from True
    have "(length str - i + 2) div 3 = Suc ((length str - (i + 3) + 2) div 3)"
      by (rule chunk_count)
    ultimately show ?thesis
      by (intro exI [of _ "word_of_int v # bs"]) simp
  qed
qed

lemma parse_hw_addr_loop_positional:
  "parse_hw_addr_loop LONG_BIT str i hw_addr = Inr out \<Longrightarrow> k < (length str - i + 2) div 3 \<Longrightarrow>
   \<exists>v. stol LONG_BIT (drop (i + 3 * k) str) = Inr v \<and> out ! (length hw_addr + k) = word_of_int v"
proof (induction LONG_BIT str i hw_addr arbitrary: k rule: parse_hw_addr_loop.induct)
  case (1 LONG_BIT str i hw_addr)
  have lt: "i < length str"
  proof (rule ccontr)
    assume "\<not> i < length str"
    then have "(length str - i + 2) div 3 = 0" by simp
    with "1.prems"(2) show False by simp
  qed
  with "1.prems"(1) obtain v where v: "stol LONG_BIT (drop i str) = Inr v"
    and ok: "\<not> INT_MAX < i + 3"
    and rec: "parse_hw_addr_loop LONG_BIT str (i + 3) (hw_addr @ [word_of_int v]) = Inr out"
    by (auto simp add: parse_hw_addr_loop.simps [of LONG_BIT str i]
          split: sum.splits if_splits)
  show ?case
  proof (cases k)
    case 0
    from parse_hw_addr_loop_appends [OF rec] obtain bs where
      "out = (hw_addr @ [word_of_int v]) @ bs" by blast
    then have "out ! length hw_addr = word_of_int v"
      by (simp add: nth_append)
    with v 0 show ?thesis by simp
  next
    case (Suc j)
    with "1.prems"(2) lt have "j < (length str - (i + 3) + 2) div 3"
      by (simp add: chunk_count)
    from "1.IH" [OF lt v ok rec this] Suc show ?thesis
      by (simp add: add.assoc)
  qed
qed

lemma parse_hw_addr_loop_returns:
  "length str + 2 \<le> INT_MAX \<Longrightarrow>
   (\<And>k. i + 3 * k < length str \<Longrightarrow> \<exists>v. stol LONG_BIT (drop (i + 3 * k) str) = Inr v) \<Longrightarrow>
   \<exists>out. parse_hw_addr_loop LONG_BIT str i hw_addr = Inr out"
proof (induction LONG_BIT str i hw_addr rule: parse_hw_addr_loop.induct)
  case (1 LONG_BIT str i hw_addr)
  show ?case
  proof (cases "i < length str")
    case False
    then show ?thesis
      by (simp add: parse_hw_addr_loop.simps [of LONG_BIT str i])
  next
    case True
    with "1.prems"(2) [of 0] obtain v where v: "stol LONG_BIT (drop i str) = Inr v"
      by auto
    from True "1.prems"(1) have ok: "\<not> INT_MAX < i + 3"
      by simp
    have "\<exists>v. stol LONG_BIT (drop (i + 3 + 3 * k) str) = Inr v" if "i + 3 + 3 * k < length str" for k
      using "1.prems"(2) [of "Suc k"] that by (simp add: add.assoc)
    from "1.IH" [OF True v ok "1.prems"(1) this] obtain out where
      "parse_hw_addr_loop LONG_BIT str (i + 3) (hw_addr @ [word_of_int v]) = Inr out"
      by blast
    with True v ok show ?thesis
      by (simp add: parse_hw_addr_loop.simps [of LONG_BIT str i])
  qed
qed

lemma parse_hw_addr_Inr:
  "parse_hw_addr LONG_BIT str hw_addr = Inr (r, out) \<longleftrightarrow>
   r = 0 \<and> parse_hw_addr_loop LONG_BIT str 0 hw_addr = Inr out"
  by (auto simp add: parse_hw_addr_def split: sum.splits)

lemma six_chunks: "((n + 2) div 3 = 6) = (n \<in> {16, 17, 18 :: nat})"
  by (simp, arith)

lemma default_mac_text:
  assumes "9 \<le> LONG_BIT"
  shows "parse_hw_addr LONG_BIT ''48:5d:60:7c:ee:22'' [] =
           Inr (0, [0x48, 0x5d, 0x60, 0x7c, 0xee, 0x22])"
  using assms
  by (simp add: parse_hw_addr_def parse_hw_addr_loop.simps stol_pair isxdigit_def
        digit_value_def INT_MAX_def)

lemma delimited_text_Cons:
  "delimited_text sep ((a, b) # ps) = a # b # (if ps = [] then [] else sep # delimited_text sep ps)"
  by (cases ps) auto

lemma drop_3_delimited_text:
  "drop 3 (delimited_text sep (p # ps)) = delimited_text sep ps"
  by (cases p; cases ps) auto

lemma parse_hw_addr_loop_delimited:
  assumes "9 \<le> LONG_BIT" and "\<not> isxdigit sep" and "length str + 2 \<le> INT_MAX"
  shows "list_all (\<lambda>(a, b). isxdigit a \<and> isxdigit b) ps \<Longrightarrow>
         drop i str = delimited_text sep ps \<Longrightarrow>
         parse_hw_addr_loop LONG_BIT str i hw_addr = Inr (hw_addr @ map pair_byte ps)"
proof (induction ps arbitrary: i hw_addr)
  case Nil
  then have "\<not> i < length str" by simp
  then show ?case
    by (simp add: parse_hw_addr_loop.simps [of LONG_BIT str i])
next
  case (Cons p ps)
  obtain a b where p: "p = (a, b)" by (cases p)
  from Cons.prems(1) p have ab: "isxdigit a" "isxdigit b"
    and rest: "list_all (\<lambda>(a, b). isxdigit a \<and> isxdigit b) ps"
    by simp_all
  have shape: "drop i str = a # b # (if ps = [] then [] else sep # delimited_text sep ps)"
    using Cons.prems(2) p by (simp add: delimited_text_Cons)
  then have lt: "i < length str"
    by (metis drop_eq_Nil list.distinct(1) not_le_imp_less)
  have v: "stol LONG_BIT (drop i str) = Inr (16 * int (digit_value a) + int (digit_value b))"
    unfolding shape using ab assms(1,2) by (intro stol_pair) simp_all
  have ok: "\<not> INT_MAX < i + 3"
    using lt assms(3) by simp
  have "drop (i + 3) str = drop 3 (drop i str)"
    by (simp add: add.commute)
  then have nxt: "drop (i + 3) str = delimited_text sep ps"
    using Cons.prems(2) by (simp only: drop_3_delimited_text)
  have "parse_hw_addr_loop LONG_BIT str i hw_addr
          = parse_hw_addr_loop LONG_BIT str (i + 3) (hw_addr @ [pair_byte p])"
    using lt v ok p
    by (subst parse_hw_addr_loop.simps [of LONG_BIT str i]) (simp add: pair_byte_def)
  also have "\<dots> = Inr ((hw_addr @ [pair_byte p]) @ map pair_byte ps)"
    using rest nxt by (rule Cons.IH)
  finally show ?case by simp
qed

lemma parse_hw_addr_delimited:
  assumes "9 \<le> LONG_BIT" and "\<not> isxdigit sep"
    and "length (delimited_text sep ps) + 2 \<le> INT_MAX"
    and "list_all (\<lambda>(a, b). isxdigit a \<and> isxdigit b) ps"
  shows "parse_hw_addr LONG_BIT (delimited_text sep ps) hw_addr
           = Inr (0, hw_addr @ map pair_byte ps)"
  using parse_hw_addr_loop_delimited [OF assms(1,2,3,4), of 0 hw_addr]
  by (simp add: parse_hw_addr_def)

text \<open>
  Claim C6: parsing reads the text position by position, every three characters: byte
  \<open>k\<close> of the result is the low 8 bits of what \<open>std::stol\<close> reads at offset \<open>3 * k\<close>;
  so for pairs of hexadecimal digits joined by a separator that is no hexadecimal digit,
  the result is the bytes the pairs denote, in order; and the text
  \<open>48:5d:60:7c:ee:22\<close> gives exactly the six bytes 0x48, 0x5d, 0x60, 0x7c, 0xee, 0x22.
  The last two parts hold for every width of \<open>long\<close> the language allows (at least 32
  bits).
\<close>

theorem parse_hw_addr_positional:
  "(parse_hw_addr LONG_BIT str [] = Inr (r, out) \<longrightarrow>
      (\<forall>k < length out. \<exists>v. stol LONG_BIT (drop (3 * k) str) = Inr v
                               \<and> out ! k = word_of_int v))
   \<and> (32 \<le> LONG_BIT \<and> \<not> isxdigit sep \<and> list_all (\<lambda>(a, b). isxdigit a \<and> isxdigit b) ps
        \<and> length (delimited_text sep ps) + 2 \<le> INT_MAX \<longrightarrow>
        parse_hw_addr LONG_BIT (delimited_text sep ps) [] = Inr (0, map pair_byte ps))
   \<and> (32 \<le> LONG_BIT \<longrightarrow>
        parse_hw_addr LONG_BIT ''48:5d:60:7c:ee:22'' []
          = Inr (0, [0x48, 0x5d, 0x60, 0x7c, 0xee, 0x22]))"
proof (intro conjI impI allI)
  fix k
  assume p: "parse_hw_addr LONG_BIT str [] = Inr (r, out)" and k: "k < length out"
  from p have loop: "parse_hw_addr_loop LONG_BIT str 0 [] = Inr out"
    by (simp add: parse_hw_addr_Inr)
  from parse_hw_addr_loop_appends [OF loop] k
  have "k < (length str - 0 + 2) div 3" by auto
  from parse_hw_addr_loop_positional [OF loop this]
  show "\<exists>v. stol LONG_BIT (drop (3 * k) str) = Inr v \<and> out ! k = word_of_int v"
    by simp
next
  assume a: "32 \<le> LONG_BIT \<and> \<not> isxdigit sep
        \<and> list_all (\<lambda>(a, b). isxdigit a \<and> isxdigit b) ps
        \<and> length (delimited_text sep ps) + 2 \<le> INT_MAX"
  then have "9 \<le> LONG_BIT" by simp
  from parse_hw_addr_delimited [OF this, of sep ps "[]"] a
  show "parse_hw_addr LONG_BIT (delimited_text sep ps) [] = Inr (0, map pair_byte ps)"
    by simp
next
  assume "32 \<le> LONG_BIT"
  then have "9 \<le> LONG_BIT" by simp
  then show "parse_hw_addr LONG_BIT ''48:5d:60:7c:ee:22'' []
          = Inr (0, [0x48, 0x5d, 0x60, 0x7c, 0xee, 0x22])"
    by (rule default_mac_text)
qed

theorem parse_hw_addr_positional_witness:
  "parse_hw_addr 32 ''48:5d:60:7c:ee:22'' [] = Inr (0, [0x48, 0x5d, 0x60, 0x7c, 0xee, 0x22])
   \<and> parse_hw_addr 64 ''48:5d:60:7c:ee:22'' [] = Inr (0, [0x48, 0x5d, 0x60, 0x7c, 0xee, 0x22])
   \<and> parse_hw_addr 32 ''B8-27-eb'' [] = Inr (0, [0xb8, 0x27, 0xeb])
   \<and> (\<exists>v. stol 32 (drop (3 * 4) ''48:5d:60:7c:ee:22'') = Inr v
           \<and> [0x48, 0x5d, 0x60, 0x7c, 0xee, 0x22 :: byte] ! 4 = word_of_int v)"
proof -
  have a: "parse_hw_addr 32 ''48:5d:60:7c:ee:22'' []
             = Inr (0, [0x48, 0x5d, 0x60, 0x7c, 0xee, 0x22])"
    using parse_hw_addr_positional [of 32] by simp
  have b: "parse_hw_addr 64 ''48:5d:60:7c:ee:22'' []
             = Inr (0, [0x48, 0x5d, 0x60, 0x7c, 0xee, 0x22])"
    using parse_hw_addr_positional [of 64] by simp
  have c: "parse_hw_addr 32 ''B8-27-eb'' [] = Inr (0, [0xb8, 0x27, 0xeb])"
    using parse_hw_addr_positional [of 32 _ _ _ "CHR ''-''"
        "[(CHR ''B'', CHR ''8''), (CHR ''2'', CHR ''7''), (CHR ''e'', CHR ''b'')]"]
    by (simp add: isxdigit_def digit_value_def pair_byte_def INT_MAX_def)
  have "\<forall>k < length [0x48, 0x5d, 0x60, 0x7c, 0xee, 0x22 :: byte].
          \<exists>v. stol 32 (drop (3 * k) ''48:5d:60:7c:ee:22'') = Inr v
            \<and> [0x48, 0x5d, 0x60, 0x7c, 0xee, 0x22 :: byte] ! k = word_of_int v"
    using parse_hw_addr_positional [of 32 "''48:5d:60:7c:ee:22''" 0
        "[0x48, 0x5d, 0x60, 0x7c, 0xee, 0x22]" "CHR '':''" "[]"] a
    by blast
  then have d: "\<exists>v. stol 32 (drop (3 * 4) ''48:5d:60:7c:ee:22'') = Inr v
           \<and> [0x48, 0x5d, 0x60, 0x7c, 0xee, 0x22 :: byte] ! 4 = word_of_int v"
    by (elim allE [of _ 4]) simp
  from a b c d show ?thesis by blast
qed

text \<open>
  Claim C9 says that every non-empty text makes the parser append \<open>ceil(|s| / 3)\<close>
  bytes. Where no hexadecimal digit stands at one of the offsets, \<open>std::stol\<close> throws,
  nothing in the program catches it, and no address results: so for \<open>zz\<close>.
\<close>

theorem parse_hw_addr_throws:
  "parse_hw_addr 32 ''zz'' [] = Inl invalid_argument
   \<and> parse_hw_addr 64 ''zz'' [] = Inl invalid_argument
   \<and> resolve_hw_addr 32 ''zz'' = Inl invalid_argument
   \<and> resolve_hw_addr 64 ''zz'' = Inl invalid_argument"
  by (simp add: resolve_hw_addr_def parse_hw_addr_def parse_hw_addr_loop.simps stol_def
        isspace_def isxdigit_def digit_value_def Let_def)

lemma parse_hw_addr_loop_throws:
  "length str + 2 \<le> INT_MAX \<Longrightarrow> i + 3 * k < length str \<Longrightarrow>
   stol LONG_BIT (drop (i + 3 * k) str) = Inl ex \<Longrightarrow>
   (\<And>j. j < k \<Longrightarrow> \<exists>v. stol LONG_BIT (drop (i + 3 * j) str) = Inr v) \<Longrightarrow>
   parse_hw_addr_loop LONG_BIT str i hw_addr = Inl ex"
proof (induction k arbitrary: i hw_addr)
  case 0
  then show ?case
    by (simp add: parse_hw_addr_loop.simps [of LONG_BIT str i])
next
  case (Suc k)
  from Suc.prems(4) [of 0] obtain v where v: "stol LONG_BIT (drop i str) = Inr v"
    by auto
  from Suc.prems(2) have lt: "i < length str" and nxt: "i + 3 + 3 * k < length str"
    by simp_all
  from lt Suc.prems(1) have ok: "\<not> INT_MAX < i + 3"
    by simp
  have fails: "stol LONG_BIT (drop (i + 3 + 3 * k) str) = Inl ex"
    using Suc.prems(3) by (simp add: add.assoc)
  have before: "\<exists>v. stol LONG_BIT (drop (i + 3 + 3 * j) str) = Inr v" if "j < k" for j
    using Suc.prems(4) [of "Suc j"] that by (simp add: add.assoc)
  have "parse_hw_addr_loop LONG_BIT str (i + 3) (hw_addr @ [word_of_int v]) = Inl ex"
    using Suc.prems(1) nxt fails before by (rule Suc.IH)
  with lt v ok show ?case
    by (simp add: parse_hw_addr_loop.simps [of LONG_BIT str i])
qed

lemma parse_hw_addr_no_result:
  assumes "3 * k < length str" and "stol LONG_BIT (drop (3 * k) str) = Inl ex"
  shows "\<exists>ex'. parse_hw_addr LONG_BIT str hw_addr = Inl ex'"
proof (cases "parse_hw_addr LONG_BIT str hw_addr")
  case (Inl ex')
  then show ?thesis by simp
next
  case (Inr res)
  then have loop: "parse_hw_addr_loop LONG_BIT str 0 hw_addr = Inr (snd res)"
    by (cases res) (simp add: parse_hw_addr_Inr)
  from assms(1) have "k < (length str - 0 + 2) div 3"
    by arith
  from parse_hw_addr_loop_positional [OF loop this] assms(2) show ?thesis
    by simp
qed

text \<open>
  Claim C9, as the code has it: whenever parsing a text returns, it has appended
  exactly \<open>ceil(|s| / 3)\<close> bytes to the vector (and returned 0); so when the interface
  file yields a non-empty text on which parsing returns, the address has 6 bytes if and
  only if the text has 16, 17 or 18 characters: the shape of 6 bytes is not enforced.
  Parsing returns when \<open>std::stol\<close> can convert at every offset \<open>3 * k\<close> inside
  the text (and the text is short enough for the \<open>int\<close> counter). Where \<open>std::stol\<close>
  cannot convert at some offset inside the text, no address results: what leaves the
  parser is the exception of the first such offset, and it ends \<open>main\<close> uncaught.
\<close>

theorem parse_hw_addr_length:
  "(parse_hw_addr LONG_BIT str hw_addr = Inr (r, out) \<longrightarrow>
      r = 0 \<and> (\<exists>bs. out = hw_addr @ bs \<and> length bs = (length str + 2) div 3))
   \<and> (mac_address \<noteq> [] \<and> resolve_hw_addr LONG_BIT mac_address = Inr server_hw_addr \<longrightarrow>
        length server_hw_addr = (length mac_address + 2) div 3
        \<and> ((length server_hw_addr = 6) = (length mac_address \<in> {16, 17, 18})))
   \<and> (length str + 2 \<le> INT_MAX
        \<and> (\<forall>k. 3 * k < length str \<longrightarrow> (\<exists>v. stol LONG_BIT (drop (3 * k) str) = Inr v)) \<longrightarrow>
        (\<exists>out. parse_hw_addr LONG_BIT str hw_addr = Inr (0, out)))
   \<and> (3 * k < length str \<and> stol LONG_BIT (drop (3 * k) str) = Inl ex \<longrightarrow>
        (\<exists>ex'. parse_hw_addr LONG_BIT str hw_addr = Inl ex'))
   \<and> (length str + 2 \<le> INT_MAX \<and> 3 * k < length str
        \<and> stol LONG_BIT (drop (3 * k) str) = Inl ex
        \<and> (\<forall>j < k. \<exists>v. stol LONG_BIT (drop (3 * j) str) = Inr v) \<longrightarrow>
        parse_hw_addr LONG_BIT str hw_addr = Inl ex)
   \<and> (mac_address \<noteq> [] \<and> parse_hw_addr LONG_BIT mac_address [] = Inl ex
        \<and> find_mac eth0 wlan0 = mac_address \<and> main_parse_args argv = Inr opts \<longrightarrow>
        main LONG_BIT lib eth0 wlan0 argv = Uncaught ex)"
proof (intro conjI impI)
  assume "parse_hw_addr LONG_BIT str hw_addr = Inr (r, out)"
  then show "r = 0" by (simp add: parse_hw_addr_Inr)
next
  assume "parse_hw_addr LONG_BIT str hw_addr = Inr (r, out)"
  then have "parse_hw_addr_loop LONG_BIT str 0 hw_addr = Inr out"
    by (simp add: parse_hw_addr_Inr)
  from parse_hw_addr_loop_appends [OF this]
  show "\<exists>bs. out = hw_addr @ bs \<and> length bs = (length str + 2) div 3"
    by simp
next
  assume a: "mac_address \<noteq> [] \<and> resolve_hw_addr LONG_BIT mac_address = Inr server_hw_addr"
  then have "parse_hw_addr_loop LONG_BIT mac_address 0 [] = Inr server_hw_addr"
    by (auto simp add: resolve_hw_addr_def parse_hw_addr_def split: sum.splits)
  from parse_hw_addr_loop_appends [OF this]
  show len: "length server_hw_addr = (length mac_address + 2) div 3"
    by auto
  show "(length server_hw_addr = 6) = (length mac_address \<in> {16, 17, 18})"
    unfolding len by (rule six_chunks)
next
  assume a: "length str + 2 \<le> INT_MAX
        \<and> (\<forall>k. 3 * k < length str \<longrightarrow> (\<exists>v. stol LONG_BIT (drop (3 * k) str) = Inr v))"
  then have "\<exists>out. parse_hw_addr_loop LONG_BIT str 0 hw_addr = Inr out"
    by (intro parse_hw_addr_loop_returns) simp_all
  then show "\<exists>out. parse_hw_addr LONG_BIT str hw_addr = Inr (0, out)"
    by (auto simp add: parse_hw_addr_def)
next
  assume "3 * k < length str \<and> stol LONG_BIT (drop (3 * k) str) = Inl ex"
  then show "\<exists>ex'. parse_hw_addr LONG_BIT str hw_addr = Inl ex'"
    by (intro parse_hw_addr_no_result [of k]) simp_all
next
  assume a: "length str + 2 \<le> INT_MAX \<and> 3 * k < length str
        \<and> stol LONG_BIT (drop (3 * k) str) = Inl ex
        \<and> (\<forall>j < k. \<exists>v. stol LONG_BIT (drop (3 * j) str) = Inr v)"
  then have "parse_hw_addr_loop LONG_BIT str 0 hw_addr = Inl ex"
    by (intro parse_hw_addr_loop_throws [of str 0 k]) simp_all
  then show "parse_hw_addr LONG_BIT str hw_addr = Inl ex"
    by (simp add: parse_hw_addr_def)
next
  assume "mac_address \<noteq> [] \<and> parse_hw_addr LONG_BIT mac_address [] = Inl ex
        \<and> find_mac eth0 wlan0 = mac_address \<and> main_parse_args argv = Inr opts"
  then show "main LONG_BIT lib eth0 wlan0 argv = Uncaught ex"
    by (simp add: main_def resolve_hw_addr_def)
qed

theorem parse_hw_addr_length_witness:
  "resolve_hw_addr 32 ''b8:27:eb'' = Inr [0xb8, 0x27, 0xeb]
   \<and> length [0xb8, 0x27, 0xeb :: byte] = (length ''b8:27:eb'' + 2) div 3
   \<and> length [0xb8, 0x27, 0xeb :: byte] \<noteq> 6
   \<and> parse_hw_addr 32 ''b8:27:eb'' [0x01] = Inr (0, [0x01, 0xb8, 0x27, 0xeb])
   \<and> stol 32 (drop (3 * 1) ''1:2:3'') = Inl invalid_argument
   \<and> parse_hw_addr 32 ''1:2:3'' [] = Inl invalid_argument
   \<and> main 32 lib_ok (Some ''1:2:3'') None [''rpiplay''] = Uncaught invalid_argument"
proof -
  have r: "resolve_hw_addr 32 ''b8:27:eb'' = Inr [0xb8, 0x27, 0xeb]"
    and p: "parse_hw_addr 32 ''b8:27:eb'' [0x01] = Inr (0, [0x01, 0xb8, 0x27, 0xeb])"
    by (simp_all add: resolve_hw_addr_def parse_hw_addr_def parse_hw_addr_loop.simps stol_pair
          isxdigit_def digit_value_def INT_MAX_def)
  have s0: "stol 32 (drop (3 * 0) ''1:2:3'') = Inr 1"
    and s1: "stol 32 (drop (3 * 1) ''1:2:3'') = Inl invalid_argument"
    by (simp_all add: stol_def isspace_def isxdigit_def digit_value_def Let_def)
  have t: "parse_hw_addr 32 ''1:2:3'' [] = Inl invalid_argument"
    using parse_hw_addr_length [of 32 "''1:2:3''" "[]" _ _ _ _ 1 invalid_argument] s0 s1
    by (simp add: INT_MAX_def)
  have f: "find_mac (Some ''1:2:3'') None = ''1:2:3''"
    by (simp add: find_mac_def read_word_def isspace_def)
  have a: "main_parse_args [''rpiplay''] = Inr default_options"
    by (simp add: main_parse_args_def parse_args.simps)
  have m: "main 32 lib_ok (Some ''1:2:3'') None [''rpiplay''] = Uncaught invalid_argument"
    using parse_hw_addr_length [of 32 _ _ _ _ "''1:2:3''" _ _ invalid_argument
        "Some ''1:2:3''" None "[''rpiplay'']" default_options lib_ok] t f a
    by simp
  from parse_hw_addr_length [of 32 "''b8:27:eb''" "[0x01]" 0 "[0x01, 0xb8, 0x27, 0xeb]"
      "''b8:27:eb''" "[0xb8, 0x27, 0xeb]"] r p s1 t m
  show ?thesis by simp
qed

section \<open>Signals during the run loop\<close>

lemma exec_append: "exec (es @ es') st = exec es' (exec es st)"
  by (induction es arbitrary: st) simp_all

lemma signal_handler_termination:
  "sig = SIGINT \<or> sig = SIGTERM \<Longrightarrow> signal_handler sig s = s\<lparr>running := False\<rparr>"
  by (simp add: signal_handler_def)

lemma exec_signals:
  "list_all (\<lambda>sig. sig = SIGINT \<or> sig = SIGTERM) sigs \<Longrightarrow>
   p = At_set_running \<or> p = At_loop_head \<Longrightarrow>
   exec (map Signal sigs) (p, s) = (p, if sigs = [] then s else s\<lparr>running := False\<rparr>)"
proof (induction sigs arbitrary: s)
  case Nil
  then show ?case by simp
next
  case (Cons sig sigs)
  then have "step (Signal sig) (p, s) = (p, s\<lparr>running := False\<rparr>)"
    by (auto simp add: signal_handler_def)
  with Cons show ?case by simp
qed

lemma step_stays_stopped:
  assumes "\<not> running s" and "p \<noteq> At_set_running"
  shows "\<not> running (snd (step e (p, s))) \<and> fst (step e (p, s)) \<noteq> At_set_running"
  using assms
  by (cases p; cases e) (simp_all add: signal_handler_def stop_server_def do_call_def)

lemma exec_stays_stopped:
  "\<not> running s \<Longrightarrow> p \<noteq> At_set_running \<Longrightarrow>
   \<not> running (snd (exec es (p, s))) \<and> fst (exec es (p, s)) \<noteq> At_set_running"
proof (induction es arbitrary: p s)
  case Nil
  then show ?case by simp
next
  case (Cons e es)
  from step_stays_stopped [OF Cons.prems, of e]
  have "\<not> running (snd (step e (p, s)))" "fst (step e (p, s)) \<noteq> At_set_running"
    by simp_all
  from Cons.IH [OF this] show ?case by simp
qed

lemma step_stopped_at_most_once:
  assumes "stopped_at_most_once s st"
  shows "stopped_at_most_once s (step e st)"
proof (cases st)
  case (Pair p s')
  with assms show ?thesis
    by (cases p; cases e)
       (auto simp add: stopped_at_most_once_def same_handles_def stop_calls_def
          stop_server_def do_call_def signal_handler_def)
qed

lemma exec_stopped_at_most_once:
  "stopped_at_most_once s st \<Longrightarrow> stopped_at_most_once s (exec es st)"
  by (induction es arbitrary: st) (simp_all add: step_stopped_at_most_once)

text \<open>
  Claim C7 says that once a termination signal has been delivered the flag stays at
  STOPPING, nothing setting it back to RUNNING before the run loop observes it. The
  handler is installed at line 105 and the flag is set at line 145, after
  \<open>start_server\<close>: a signal delivered in between finds the flag clear, clears it, and
  line 145 then sets it. In the run below \<open>main\<close> has started the session, both
  signals arrive before line 145, and the run loop, which never sees them, sleeps.
\<close>

theorem signal_before_line_145_is_lost:
  "main 32 lib_ok None None [''rpiplay''] =
     Running (At_set_running,
       snd (start_server lib_ok DEFAULT_HW_ADDRESS DEFAULT_NAME DEFAULT_SHOW_BACKGROUND
              DEFAULT_AUDIO_DEVICE DEFAULT_LOW_LATENCY initial_globals))
   \<and> exec [Signal SIGTERM, Signal SIGINT, Main_step, Main_step]
        (At_set_running,
         snd (start_server lib_ok DEFAULT_HW_ADDRESS DEFAULT_NAME DEFAULT_SHOW_BACKGROUND
                DEFAULT_AUDIO_DEVICE DEFAULT_LOW_LATENCY initial_globals))
      = (At_loop_head,
         do_call (call_sleep 1)
           ((snd (start_server lib_ok DEFAULT_HW_ADDRESS DEFAULT_NAME DEFAULT_SHOW_BACKGROUND
                    DEFAULT_AUDIO_DEVICE DEFAULT_LOW_LATENCY initial_globals))
              \<lparr>running := True\<rparr>))"
proof -
  have ret: "fst (start_server lib_ok DEFAULT_HW_ADDRESS DEFAULT_NAME DEFAULT_SHOW_BACKGROUND
              DEFAULT_AUDIO_DEVICE DEFAULT_LOW_LATENCY initial_globals) = 0"
    by (simp add: start_server_network lib_ok_def)
  have args: "main_parse_args [''rpiplay''] = Inr default_options"
    by (simp add: main_parse_args_def parse_args.simps)
  have mac: "resolve_hw_addr 32 (find_mac None None) = Inr DEFAULT_HW_ADDRESS"
    by (simp add: resolve_hw_addr_def find_mac_def)
  have "main 32 lib_ok None None [''rpiplay''] =
     Running (At_set_running,
       snd (start_server lib_ok DEFAULT_HW_ADDRESS DEFAULT_NAME DEFAULT_SHOW_BACKGROUND
              DEFAULT_AUDIO_DEVICE DEFAULT_LOW_LATENCY initial_globals))"
    using ret by (simp add: main_def args mac default_options_def split_beta)
  then show ?thesis
    by (simp add: signal_handler_def SIGINT_def SIGTERM_def)
qed

text \<open>
  Claim C7, as the code has it: the handler, run for \<open>SIGINT\<close> or \<open>SIGTERM\<close>, clears
  the flag and does nothing else; once line 145 is behind, any number (at least one) of
  such deliveries while the main thread is at the loop head leaves the state as it was
  but for the cleared flag, no sequence of further signals and steps of the main thread
  sets the flag again, the next step of the main thread leaves the loop, and whatever is
  delivered, a run from the loop head keeps the handles and runs \<open>stop_server\<close> at
  most once. Termination signals delivered before line 145 are overwritten by it: the
  main thread arrives at the loop head with the flag set.
\<close>

theorem termination_signal_settles:
  "(sig = SIGINT \<or> sig = SIGTERM \<longrightarrow> signal_handler sig s = s\<lparr>running := False\<rparr>)
   \<and> (sigs \<noteq> [] \<and> list_all (\<lambda>sig. sig = SIGINT \<or> sig = SIGTERM) sigs \<longrightarrow>
        exec (map Signal sigs) (At_loop_head, s) = (At_loop_head, s\<lparr>running := False\<rparr>))
   \<and> (\<not> running s \<and> p \<noteq> At_set_running \<longrightarrow> \<not> running (snd (exec es (p, s))))
   \<and> (\<not> running s \<longrightarrow> fst (step Main_step (At_loop_head, s)) = Returned 0)
   \<and> stopped_at_most_once s (exec es (At_loop_head, s))
   \<and> (list_all (\<lambda>sig. sig = SIGINT \<or> sig = SIGTERM) sigs \<longrightarrow>
        exec (map Signal sigs @ [Main_step]) (At_set_running, s)
          = (At_loop_head, s\<lparr>running := True\<rparr>))"
proof -
  have "stopped_at_most_once s (At_loop_head, s)"
    by (simp add: stopped_at_most_once_def same_handles_def)
  then have once: "stopped_at_most_once s (exec es (At_loop_head, s))"
    by (rule exec_stopped_at_most_once)
  have lost: "exec (map Signal sigs @ [Main_step]) (At_set_running, s)
                = (At_loop_head, s\<lparr>running := True\<rparr>)"
    if "list_all (\<lambda>sig. sig = SIGINT \<or> sig = SIGTERM) sigs"
    using exec_signals [OF that, of At_set_running s]
    by (simp add: exec_append)
  from once lost show ?thesis
    using exec_stays_stopped [of s p es]
    by (simp add: signal_handler_termination exec_signals)
qed

theorem termination_signal_settles_witness:
  "exec [Signal SIGINT, Signal SIGTERM, Signal SIGINT]
        (At_loop_head, initial_globals\<lparr>running := True\<rparr>)
     = (At_loop_head, initial_globals)
   \<and> running (snd (exec [Signal SIGINT, Main_step, Main_step, Signal SIGTERM, Main_step]
         (At_loop_head, initial_globals))) = False
   \<and> exec [Signal SIGINT, Signal SIGINT, Main_step, Signal SIGINT, Main_step]
        (At_loop_head, initial_globals\<lparr>running := True\<rparr>)
      = (Returned 0, initial_globals\<lparr>calls :=
           [call_LOG LOGI ''Stopping...'', call_raop_destroy None, call_dnssd_unregister_raop None,
            call_dnssd_unregister_airplay None, call_audio_renderer_destroy None,
            call_video_renderer_destroy None]\<rparr>)
   \<and> exec [Signal SIGINT, Signal SIGTERM, Main_step] (At_set_running, initial_globals)
      = (At_loop_head, initial_globals\<lparr>running := True\<rparr>)"
  using termination_signal_settles [of SIGINT "initial_globals\<lparr>running := True\<rparr>"
      "[SIGINT, SIGTERM, SIGINT]" At_loop_head "[]"]
    termination_signal_settles [of SIGTERM initial_globals "[SIGINT, SIGTERM]" At_loop_head
      "[Signal SIGINT, Main_step, Main_step, Signal SIGTERM, Main_step]"]
  by (simp add: initial_globals_def signal_handler_def SIGINT_def SIGTERM_def stop_server_def
        do_call_def)

end
